theory Spec2Isabelle
  imports Main "HOL-Library.Multiset"
begin

section \<open>JavaScript string helpers\<close>

text \<open>
  Strings are lists of characters. \<open>String.prototype.trim\<close> removes white space and
  line terminators from both ends.

  \<open>String.prototype.toUpperCase\<close> and \<open>String.prototype.toLowerCase\<close> are functions of
  the JavaScript runtime that follow the case mappings of Unicode. A handler that applies
  one of them to text typed by the user takes the function as a parameter, named as in
  the source, and nothing is assumed about it. \<open>asciiUpperCase\<close> and \<open>asciiLowerCase\<close>
  are what the two functions do on strings of ASCII characters: the 26 letters change
  their case and every other character is left as it is.
\<close>

definition isWhiteSpace :: "char \<Rightarrow> bool" where
  "isWhiteSpace c =
     (c \<in> set [CHR 0x09, CHR 0x0A, CHR 0x0B, CHR 0x0C, CHR 0x0D, CHR '' '', CHR 0xA0])"

definition trim :: "string \<Rightarrow> string" where
  "trim s = rev (dropWhile isWhiteSpace (rev (dropWhile isWhiteSpace s)))"

definition lowerLetters :: string where
  "lowerLetters = ''abcdefghijklmnopqrstuvwxyz''"

definition upperLetters :: string where
  "upperLetters = ''ABCDEFGHIJKLMNOPQRSTUVWXYZ''"

definition digits :: string where
  "digits = ''0123456789''"

definition toUpperChar :: "char \<Rightarrow> char" where
  "toUpperChar c = (case map_of (zip lowerLetters upperLetters) c of Some u \<Rightarrow> u | None \<Rightarrow> c)"

definition toLowerChar :: "char \<Rightarrow> char" where
  "toLowerChar c = (case map_of (zip upperLetters lowerLetters) c of Some l \<Rightarrow> l | None \<Rightarrow> c)"

definition asciiUpperCase :: "string \<Rightarrow> string" where
  "asciiUpperCase s = map toUpperChar s"

definition asciiLowerCase :: "string \<Rightarrow> string" where
  "asciiLowerCase s = map toLowerChar s"

definition isUpperAlnum :: "char \<Rightarrow> bool" where
  "isUpperAlnum c = (c \<in> set (digits @ upperLetters))"

definition isBase36Digit :: "char \<Rightarrow> bool" where
  "isBase36Digit c = (c \<in> set (digits @ lowerLetters))"

text \<open>\<open>s.substring(i, j)\<close> for \<open>0 \<le> i \<le> j\<close>: the characters from index \<open>i\<close> up to, not
  including, index \<open>j\<close>, fewer when the string is shorter.\<close>

definition substring :: "nat \<Rightarrow> nat \<Rightarrow> string \<Rightarrow> string" where
  "substring i j s = take (j - i) (drop i s)"

section \<open>Data model (ChatsPage.tsx, interfaces Message and Group)\<close>

record timestamp_t =
  seconds :: int
  nanoseconds :: int

text \<open>A message document together with its document id. The field \<open>timestamp\<close> is
  \<open>None\<close> while the server timestamp of a local write is still pending.\<close>

record message =
  message_id :: string
  content :: string
  senderId :: string
  senderName :: string
  timestamp :: "timestamp_t option"
  groupId :: string
  createdAt :: "string option"

record group =
  group_id :: string
  name :: string
  description :: string
  createdBy :: string
  group_createdAt :: int
  members :: "string list"
  group_inviteCode :: "string option"

section \<open>The document store\<close>

text \<open>
  The hosted document database. While \<open>outage\<close> holds an error message no call
  reaches it: the call throws an error with that message and the handler's \<open>catch\<close>
  block runs. The two collections are lists of documents.
\<close>

record firestore =
  outage :: "string option"
  messages_coll :: "message list"
  groups_coll :: "group list"

definition online :: "firestore \<Rightarrow> bool" where
  "online db = (outage db = None)"

definition MESSAGES_PER_PAGE :: nat where
  "MESSAGES_PER_PAGE = 25"

text \<open>
  Modelled from the spec: the query primitives of the document store, which is an
  external collaborator (section 6: equality filter, ordering, result-count limit,
  paginate strictly after a given document). \<open>orderBy('timestamp', 'desc')\<close> keeps the
  documents that have the field and lists the newest first; a timestamp is compared as
  seconds and nanoseconds, the nanoseconds lying below one second.
\<close>

definition ts_key :: "message \<Rightarrow> int" where
  "ts_key d = (case timestamp d of None \<Rightarrow> 0
               | Some t \<Rightarrow> seconds t * 1000000000 + nanoseconds t)"


definition where_groupId :: "string \<Rightarrow> message list \<Rightarrow> message list" where
  "where_groupId g ds = filter (\<lambda>d. groupId d = g) ds"

definition orderBy_timestamp_desc :: "message list \<Rightarrow> message list" where
  "orderBy_timestamp_desc ds = rev (sort_key ts_key (filter (\<lambda>d. timestamp d \<noteq> None) ds))"

text \<open>\<open>startAfter(snapshot)\<close>: the part of the ordered result that lies strictly after
  the cursor document.\<close>

definition startAfter :: "message \<Rightarrow> message list \<Rightarrow> message list" where
  "startAfter c ds =
     (case dropWhile (\<lambda>d. message_id d \<noteq> message_id c) ds of [] \<Rightarrow> [] | _ # rest \<Rightarrow> rest)"

definition group_feed :: "firestore \<Rightarrow> string \<Rightarrow> message list" where
  "group_feed db g = orderBy_timestamp_desc (where_groupId g (messages_coll db))"

text \<open>The query built in \<open>loadMessages\<close> and \<open>handleGroupSelect\<close>, and its result.\<close>

definition messagesQuery :: "firestore \<Rightarrow> string \<Rightarrow> message option \<Rightarrow> nat \<Rightarrow> message list" where
  "messagesQuery db g lastRef n =
     (case lastRef of
        None \<Rightarrow> take n (group_feed db g)
      | Some c \<Rightarrow> take n (startAfter c (group_feed db g)))"

section \<open>State of the chats page (ChatsPage.tsx, lines 77-94)\<close>

text \<open>
  The \<open>useState\<close> cells of the component. A stored unsubscribe function is modelled by
  the handle of the listener it detaches. Three fields record what the component does to
  its collaborators: \<open>listeners\<close> holds the attached \<open>onSnapshot\<close> listeners of
  \<open>handleGroupSelect\<close> (handle and group id), \<open>fetchLog\<close> the \<open>getDocs\<close> calls issued
  (group id and cursor), \<open>alerts\<close> the texts shown by \<open>alert\<close>. \<open>effectListener\<close> is the
  group the listener of the message effect is attached to.
\<close>

record chats_page =
  messageListener :: "nat option"
  messages :: "message list"
  groups :: "group list"
  selectedGroup :: "group option"
  showCreateGroup :: bool
  newGroupName :: string
  newGroupDescription :: string
  creatingGroup :: bool
  newMessage :: string
  showInviteModal :: bool
  showJoinModal :: bool
  inviteCode :: string
  joining :: bool
  lastMessageRef :: "message option"
  hasMoreMessages :: bool
  isLoadingMore :: bool
  listeners :: "(nat \<times> string) list"
  nextHandle :: nat
  effectListener :: "string option"
  fetchLog :: "(string \<times> message option) list"
  alerts :: "string list"

definition initial_page :: chats_page where
  "initial_page =
     \<lparr> messageListener = None, messages = [], groups = [], selectedGroup = None,
       showCreateGroup = False, newGroupName = [], newGroupDescription = [],
       creatingGroup = False, newMessage = [], showInviteModal = False,
       showJoinModal = False, inviteCode = [], joining = False, lastMessageRef = None,
       hasMoreMessages = True, isLoadingMore = False, listeners = [], nextHandle = 0,
       effectListener = None, fetchLog = [], alerts = [] \<rparr>"

section \<open>The message feed (ChatsPage.tsx, lines 153-334)\<close>

text \<open>Lines 178-190 of \<open>loadMessages\<close>: what is done with the documents of a snapshot.\<close>

definition applySnapshot :: "message option \<Rightarrow> message list \<Rightarrow> chats_page \<Rightarrow> chats_page" where
  "applySnapshot lastRef docs p =
     (let p1 = p\<lparr>hasMoreMessages := (length docs = MESSAGES_PER_PAGE)\<rparr>;
          p2 = (case lastRef of
                  Some c \<Rightarrow> p1\<lparr>messages := messages p1 @ docs\<rparr>
                | None \<Rightarrow> p1\<lparr>messages := docs\<rparr>)
      in if docs \<noteq> [] then p2\<lparr>lastMessageRef := Some (last docs)\<rparr> else p2)"

definition loadMessages :: "firestore \<Rightarrow> string \<Rightarrow> message option \<Rightarrow> chats_page \<Rightarrow> chats_page" where
  "loadMessages db g lastRef p =
     (let p0 = p\<lparr>fetchLog := fetchLog p @ [(g, lastRef)]\<rparr>
      in if online db
         then applySnapshot lastRef (messagesQuery db g lastRef MESSAGES_PER_PAGE) p0
         else p0)"

definition loadMoreMessages :: "firestore \<Rightarrow> chats_page \<Rightarrow> chats_page" where
  "loadMoreMessages db p =
     (case selectedGroup p of
        None \<Rightarrow> p
      | Some g \<Rightarrow>
          if \<not> hasMoreMessages p \<or> isLoadingMore p then p
          else (loadMessages db (group_id g) (lastMessageRef p)
                  (p\<lparr>isLoadingMore := True\<rparr>))\<lparr>isLoadingMore := False\<rparr>)"

text \<open>The callback of the listener attached in \<open>handleGroupSelect\<close> (lines 266-283), for
  one document change of type \<open>added\<close>.\<close>

definition mergeAdded :: "message \<Rightarrow> message list \<Rightarrow> message list" where
  "mergeAdded newMsg prev =
     (if find (\<lambda>m. message_id m = message_id newMsg) prev = None
      then newMsg # prev else prev)"

definition unsubscribe :: "nat \<Rightarrow> (nat \<times> string) list \<Rightarrow> (nat \<times> string) list" where
  "unsubscribe h ls = filter (\<lambda>l. fst l \<noteq> h) ls"

text \<open>A change of type \<open>added\<close> delivered to the listener with handle \<open>h\<close>: the callback
  runs when that listener is still attached.\<close>

definition deliverAdded :: "nat \<Rightarrow> message \<Rightarrow> chats_page \<Rightarrow> chats_page" where
  "deliverAdded h d p =
     (if h \<in> fst ` set (listeners p) then p\<lparr>messages := mergeAdded d (messages p)\<rparr> else p)"

text \<open>
  \<open>handleGroupSelect\<close> (lines 224-289). The unsubscribe function of the new listener is
  returned from the handler and never stored: \<open>setMessageListener\<close> is only ever called
  with \<open>null\<close>.
\<close>

definition handleGroupSelect :: "firestore \<Rightarrow> group \<Rightarrow> chats_page \<Rightarrow> chats_page" where
  "handleGroupSelect db g p =
     (let p1 = p\<lparr>selectedGroup := Some g, messages := [], newMessage := [],
                 lastMessageRef := None, hasMoreMessages := True\<rparr>;
          p2 = (case messageListener p of
                  Some h \<Rightarrow> p1\<lparr>listeners := unsubscribe h (listeners p1), messageListener := None\<rparr>
                | None \<Rightarrow> p1);
          p3 = p2\<lparr>fetchLog := fetchLog p2 @ [(group_id g, None)]\<rparr>
      in if \<not> online db then p3
         else
           (let docs = messagesQuery db (group_id g) None MESSAGES_PER_PAGE;
                p4 = p3\<lparr>hasMoreMessages := (length docs = MESSAGES_PER_PAGE), messages := docs\<rparr>;
                p5 = (if docs \<noteq> [] then p4\<lparr>lastMessageRef := Some (last docs)\<rparr> else p4)
            in p5\<lparr>listeners := listeners p5 @ [(nextHandle p5, group_id g)],
                   nextHandle := Suc (nextHandle p5)\<rparr>))"

text \<open>
  The message effect (lines 292-334). It runs after a render in which the id of the
  selected group has changed: the cleanup detaches the previous listener and a listener
  for the selected group is attached. Its callback replaces the list by the documents of
  the snapshot, sorted by \<open>timestamp?.seconds || 0\<close>.
\<close>

definition messageEffect :: "chats_page \<Rightarrow> chats_page" where
  "messageEffect p = p\<lparr>effectListener := map_option group_id (selectedGroup p)\<rparr>"

definition timeOf :: "message \<Rightarrow> int" where
  "timeOf m = (case timestamp m of None \<Rightarrow> 0 | Some t \<Rightarrow> seconds t)"

definition sortedMessages :: "message list \<Rightarrow> message list" where
  "sortedMessages newMessages = sort_key timeOf newMessages"

definition onMessagesSnapshot :: "message list \<Rightarrow> chats_page \<Rightarrow> chats_page" where
  "onMessagesSnapshot docs p =
     (if effectListener p = None then p else p\<lparr>messages := sortedMessages docs\<rparr>)"

section \<open>Groups and invite codes (ChatsPage.tsx, lines 359-445)\<close>

text \<open>\<open>updateDoc\<close> on a group document: the update is applied to the document with the
  given id. \<open>arrayUnion\<close> adds an element that the array does not hold yet.\<close>

definition group_exists :: "string \<Rightarrow> group list \<Rightarrow> bool" where
  "group_exists gid ds = (gid \<in> set (map group_id ds))"

definition updateDoc_group :: "string \<Rightarrow> (group \<Rightarrow> group) \<Rightarrow> group list \<Rightarrow> group list" where
  "updateDoc_group gid f ds = map (\<lambda>d. if group_id d = gid then f d else d) ds"

definition arrayUnion :: "string \<Rightarrow> string list \<Rightarrow> string list" where
  "arrayUnion u ms = (if u \<in> set ms then ms else ms @ [u])"

text \<open>The query \<open>where('inviteCode', '==', c)\<close> on the groups collection.\<close>

definition where_inviteCode :: "string \<Rightarrow> group list \<Rightarrow> group list" where
  "where_inviteCode c ds = filter (\<lambda>d. group_inviteCode d = Some c) ds"

text \<open>
  \<open>handleCreateGroup\<close> (lines 359-390). \<open>currentUser\<close> is the uid of \<open>auth.currentUser\<close>,
  \<open>newId\<close> the id the store gives the new document, \<open>serverTime\<close> and \<open>clientTime\<close> the
  values of \<open>serverTimestamp()\<close> and \<open>new Date()\<close>.
\<close>

definition handleCreateGroup ::
  "string option \<Rightarrow> string \<Rightarrow> int \<Rightarrow> int \<Rightarrow> chats_page \<times> firestore \<Rightarrow> chats_page \<times> firestore" where
  "handleCreateGroup currentUser newId serverTime clientTime pd =
     (case pd of (p, db) \<Rightarrow>
        (case currentUser of
           None \<Rightarrow> (p, db)
         | Some uid \<Rightarrow>
             if trim (newGroupName p) = [] then (p, db)
             else if \<not> online db then (p\<lparr>creatingGroup := False\<rparr>, db)
             else
               (let newGroupData =
                      \<lparr> group_id = newId, name = trim (newGroupName p),
                        description = trim (newGroupDescription p), createdBy = uid,
                        group_createdAt = serverTime, members = [uid],
                        group_inviteCode = None \<rparr>;
                    newGroup = newGroupData\<lparr>group_createdAt := clientTime\<rparr>
                in (p\<lparr>groups := newGroup # groups p, showCreateGroup := False,
                       newGroupName := [], newGroupDescription := [],
                       selectedGroup := Some newGroup, creatingGroup := False\<rparr>,
                    db\<lparr>groups_coll := groups_coll db @ [newGroupData]\<rparr>))))"

text \<open>
  \<open>generateInviteCode\<close> (lines 393-406). \<open>rnd\<close> is the string
  \<open>Math.random().toString(36)\<close>: the digit \<open>0\<close>, and, unless the number is zero, a point
  and the base-36 digits of the fraction. It is a string of ASCII characters, so
  \<open>toUpperCase\<close> is \<open>asciiUpperCase\<close> on it.
\<close>

definition newInviteCode :: "string \<Rightarrow> string" where
  "newInviteCode rnd = asciiUpperCase (substring 2 10 rnd)"

definition generateInviteCode :: "string \<Rightarrow> chats_page \<times> firestore \<Rightarrow> chats_page \<times> firestore" where
  "generateInviteCode rnd pd =
     (case pd of (p, db) \<Rightarrow>
        (case selectedGroup p of
           None \<Rightarrow> (p, db)
         | Some g \<Rightarrow>
             if \<not> online db \<or> \<not> group_exists (group_id g) (groups_coll db) then (p, db)
             else
               (let code = newInviteCode rnd
                in (p\<lparr>inviteCode := code, showInviteModal := True\<rparr>,
                    db\<lparr>groups_coll :=
                         updateDoc_group (group_id g) (\<lambda>d. d\<lparr>group_inviteCode := Some code\<rparr>)
                           (groups_coll db)\<rparr>))))"

text \<open>\<open>handleJoinGroup\<close> (lines 409-445). A thrown error is caught and its message is
  shown by \<open>alert\<close>; \<open>finally\<close> resets \<open>joining\<close>. The parameter \<open>toUpperCase\<close> is the
  function of the runtime applied to the trimmed code at line 416.\<close>

definition handleJoinGroup ::
  "(string \<Rightarrow> string) \<Rightarrow> string option \<Rightarrow> string \<Rightarrow> chats_page \<times> firestore
     \<Rightarrow> chats_page \<times> firestore" where
  "handleJoinGroup toUpperCase currentUser code pd =
     (case pd of (p, db) \<Rightarrow>
        (case currentUser of
           None \<Rightarrow> (p, db)
         | Some uid \<Rightarrow>
             if trim code = [] then (p, db)
             else
               (case outage db of
                  Some msg \<Rightarrow> (p\<lparr>alerts := alerts p @ [msg], joining := False\<rparr>, db)
                | None \<Rightarrow>
                    (case where_inviteCode (toUpperCase (trim code)) (groups_coll db) of
                       [] \<Rightarrow>
                         (p\<lparr>alerts := alerts p @ [''Invalid invite code''], joining := False\<rparr>, db)
                     | groupDoc # _ \<Rightarrow>
                         if uid \<in> set (members groupDoc)
                         then (p\<lparr>alerts := alerts p @ [''You are already a member of this group''],
                                 joining := False\<rparr>, db)
                         else (p\<lparr>showJoinModal := False, inviteCode := [], joining := False\<rparr>,
                               db\<lparr>groups_coll :=
                                    updateDoc_group (group_id groupDoc)
                                      (\<lambda>d. d\<lparr>members := arrayUnion uid (members d)\<rparr>)
                                      (groups_coll db)\<rparr>)))))"

text \<open>The group a code resolves to: the first document of the query by that code.\<close>

definition resolveInviteCode :: "string \<Rightarrow> firestore \<Rightarrow> group option" where
  "resolveInviteCode c db =
     (case where_inviteCode c (groups_coll db) of [] \<Rightarrow> None | d # _ \<Rightarrow> Some d)"

section \<open>Sign-up and sign-in (component AuthPage, src/unnamed/part_000)\<close>

record user_doc =
  user_email :: string
  user_username :: string
  user_emailVerified :: bool
  user_createdAt :: int
  user_updatedAt :: int
  user_lastLoginAt :: int

datatype auth_code =
  EmailAlreadyInUse | InvalidEmail | WeakPassword | UserNotFound | WrongPassword
  | OtherError string

text \<open>
  The authentication provider is an external collaborator: its answers are parameters.
  \<open>createUser email password\<close> is the answer of \<open>createUserWithEmailAndPassword\<close> (an
  error code or the uid of the new account), \<open>signIn\<close> that of
  \<open>signInWithEmailAndPassword\<close> (an error code or the uid and the \<open>emailVerified\<close> flag),
  \<open>sendReset\<close> that of \<open>sendPasswordResetEmail\<close> (the message of the error, if any).
\<close>

record auth_provider =
  createUser :: "string \<Rightarrow> string \<Rightarrow> auth_code + string"
  signIn :: "string \<Rightarrow> string \<Rightarrow> auth_code + (string \<times> bool)"
  sendReset :: "string \<Rightarrow> string option"

text \<open>The calls the page makes, in the order it makes them.\<close>

datatype backend_call =
  GetUsernameDoc string
  | CreateAccount string
  | UpdateProfile string string
  | SetUserDoc string
  | SetUsernameDoc string string
  | SendEmailVerification string
  | SignIn string
  | UpdateLastLogin string
  | SendPasswordReset string

text \<open>The collections \<open>users\<close> (by uid) and \<open>usernames\<close> (by lower-cased username), the
  accounts held by the provider (uid and email), and the log of the calls.\<close>

record auth_backend =
  store_outage :: "string option"
  users :: "string \<rightharpoonup> user_doc"
  usernames :: "string \<rightharpoonup> string"
  accounts :: "(string \<times> string) list"
  calls :: "backend_call list"

record auth_page =
  isSignUp :: bool
  email :: string
  password :: string
  confirmPassword :: string
  username :: string
  error :: string
  resetMode :: bool
  message_shown :: string
  loading :: bool
  navigated :: "string option"

definition authErrorText :: "auth_code \<Rightarrow> string" where
  "authErrorText c =
     (case c of
        EmailAlreadyInUse \<Rightarrow> ''This email is already registered. Please sign in instead.''
      | InvalidEmail \<Rightarrow> ''Please enter a valid email address.''
      | WeakPassword \<Rightarrow> ''Password should be at least 6 characters long.''
      | UserNotFound \<Rightarrow> ''Invalid email or password.''
      | WrongPassword \<Rightarrow> ''Invalid email or password.''
      | OtherError msg \<Rightarrow> msg)"

text \<open>The message of the error \<open>updateDoc\<close> throws for a document that does not exist.\<close>

definition notFoundMessage :: string where
  "notFoundMessage = ''No document to update''"

definition logCall :: "backend_call \<Rightarrow> auth_backend \<Rightarrow> auth_backend" where
  "logCall c b = b\<lparr>calls := calls b @ [c]\<rparr>"

text \<open>\<open>createUserDocument\<close> (lines 26-52): the profile document, then the username
  document. The parameter \<open>toLowerCase\<close> is the function of the runtime applied to the
  username at line 44.\<close>

definition createUserDocument ::
  "(string \<Rightarrow> string) \<Rightarrow> int \<Rightarrow> string \<Rightarrow> string \<Rightarrow> string \<Rightarrow> auth_backend
     \<Rightarrow> auth_backend" where
  "createUserDocument toLowerCase now uid em uname b =
     (let b1 = (logCall (SetUserDoc uid) b)
                 \<lparr>users := (users b)(uid \<mapsto>
                     \<lparr> user_email = em, user_username = uname, user_emailVerified = False,
                       user_createdAt = now, user_updatedAt = now, user_lastLoginAt = now \<rparr>)\<rparr>
      in (logCall (SetUsernameDoc (toLowerCase uname) uid) b1)
           \<lparr>usernames := (usernames b1)(toLowerCase uname \<mapsto> uid)\<rparr>)"

text \<open>\<open>checkUsername\<close> (lines 55-59), with the same parameter for line 56.\<close>

definition checkUsername :: "(string \<Rightarrow> string) \<Rightarrow> string \<Rightarrow> auth_backend \<Rightarrow> bool" where
  "checkUsername toLowerCase uname b = (usernames b (toLowerCase uname) \<noteq> None)"

text \<open>\<open>handlePasswordReset\<close> (lines 61-74).\<close>

definition handlePasswordReset ::
  "auth_provider \<Rightarrow> auth_page \<times> auth_backend \<Rightarrow> auth_page \<times> auth_backend" where
  "handlePasswordReset prov ab =
     (case ab of (a, b) \<Rightarrow>
        (let b1 = logCall (SendPasswordReset (email a)) b
         in case sendReset prov (email a) of
              None \<Rightarrow>
                (a\<lparr>message_shown := ''Password reset email sent! Check your inbox.'',
                   error := [], loading := False\<rparr>, b1)
            | Some msg \<Rightarrow> (a\<lparr>error := msg, loading := False\<rparr>, b1)))"

text \<open>
  \<open>handleAuth\<close> (lines 76-168). \<open>toLowerCase\<close> is passed on to \<open>checkUsername\<close> and
  \<open>createUserDocument\<close>; \<open>now\<close> is the value of \<open>new Date()\<close>. An error thrown by
  the document store carries no code of the provider, so the \<open>default\<close> branch shows its
  message.
\<close>

definition handleAuth ::
  "(string \<Rightarrow> string) \<Rightarrow> auth_provider \<Rightarrow> int \<Rightarrow> auth_page \<times> auth_backend
     \<Rightarrow> auth_page \<times> auth_backend" where
  "handleAuth toLowerCase prov now ab =
     (case ab of (a, b) \<Rightarrow>
        (let a0 = a\<lparr>error := [], message_shown := [], loading := True\<rparr>
         in if resetMode a then handlePasswordReset prov (a0, b)
            else if isSignUp a then
              (if password a \<noteq> confirmPassword a
               then (a0\<lparr>error := ''Passwords do not match'', loading := False\<rparr>, b)
               else if length (password a) < 6
               then (a0\<lparr>error := ''Password must be at least 6 characters long'',
                        loading := False\<rparr>, b)
               else if length (username a) < 3
               then (a0\<lparr>error := ''Username must be at least 3 characters long'',
                        loading := False\<rparr>, b)
               else
                 (let b1 = logCall (GetUsernameDoc (toLowerCase (username a))) b
                  in case store_outage b of
                       Some msg \<Rightarrow> (a0\<lparr>error := msg, loading := False\<rparr>, b1)
                     | None \<Rightarrow>
                         if checkUsername toLowerCase (username a) b
                         then (a0\<lparr>error := ''Username is already taken'', loading := False\<rparr>, b1)
                         else
                           (let b2 = logCall (CreateAccount (email a)) b1
                            in case createUser prov (email a) (password a) of
                                 Inl c \<Rightarrow> (a0\<lparr>error := authErrorText c, loading := False\<rparr>, b2)
                               | Inr uid \<Rightarrow>
                                   (let b3 = b2\<lparr>accounts := accounts b2 @ [(uid, email a)]\<rparr>;
                                        b4 = logCall (UpdateProfile uid (username a)) b3;
                                        b5 = createUserDocument toLowerCase now uid (email a)
                                               (username a) b4;
                                        b6 = logCall (SendEmailVerification uid) b5
                                    in (a0\<lparr>message_shown :=
                                             ''Account created! Please check your email for verification.'',
                                           navigated := Some ''/verify-email'',
                                           loading := False\<rparr>, b6)))))
            else
              (let b1 = logCall (SignIn (email a)) b
               in case signIn prov (email a) (password a) of
                    Inl c \<Rightarrow> (a0\<lparr>error := authErrorText c, loading := False\<rparr>, b1)
                  | Inr (uid, verified) \<Rightarrow>
                      (let b2 = logCall (UpdateLastLogin uid) b1
                       in case store_outage b of
                            Some msg \<Rightarrow> (a0\<lparr>error := msg, loading := False\<rparr>, b2)
                          | None \<Rightarrow>
                              (case users b uid of
                                 None \<Rightarrow>
                                   (a0\<lparr>error := notFoundMessage, loading := False\<rparr>, b2)
                               | Some u \<Rightarrow>
                                   (a0\<lparr>navigated :=
                                          Some (if verified then ''/chats'' else ''/verify-email''),
                                        loading := False\<rparr>,
                                    b2\<lparr>users := (users b2)(uid \<mapsto> u\<lparr>user_lastLoginAt := now\<rparr>)\<rparr>))))))"

section \<open>Feed histories\<close>

definition message_ids :: "message list \<Rightarrow> string list" where
  "message_ids ms = map message_id ms"

text \<open>
  The two things that add to the list of a selected group: a change of type \<open>added\<close>
  delivered to an attached listener, and a call of \<open>loadMoreMessages\<close>.
\<close>

datatype feed_event = Added nat message | LoadOlder

fun feed_step :: "firestore \<Rightarrow> chats_page \<Rightarrow> feed_event \<Rightarrow> chats_page" where
  "feed_step db p (Added h d) = deliverAdded h d p"
| "feed_step db p LoadOlder = loadMoreMessages db p"

fun run_feed :: "firestore \<Rightarrow> feed_event list \<Rightarrow> chats_page \<Rightarrow> chats_page" where
  "run_feed db [] p = p"
| "run_feed db (e # es) p = run_feed db es (feed_step db p e)"

text \<open>The documents a call of \<open>loadMoreMessages\<close> receives in state \<open>p\<close>: none when the
  guard returns early or the store is not reached.\<close>

definition older_page :: "firestore \<Rightarrow> chats_page \<Rightarrow> message list" where
  "older_page db p =
     (case selectedGroup p of
        None \<Rightarrow> []
      | Some g \<Rightarrow>
          if \<not> hasMoreMessages p \<or> isLoadingMore p \<or> \<not> online db then []
          else messagesQuery db (group_id g) (lastMessageRef p) MESSAGES_PER_PAGE)"

text \<open>A page is fresh when it is appended to a list that holds none of its ids; the page
  of a call without a cursor replaces the list.\<close>

definition page_fresh :: "firestore \<Rightarrow> chats_page \<Rightarrow> bool" where
  "page_fresh db p =
     (lastMessageRef p = None \<or>
      (\<forall>i \<in> set (message_ids (older_page db p)). i \<notin> set (message_ids (messages p))))"

fun pages_fresh :: "firestore \<Rightarrow> feed_event list \<Rightarrow> chats_page \<Rightarrow> bool" where
  "pages_fresh db [] p = True"
| "pages_fresh db (Added h d # es) p = pages_fresh db es (deliverAdded h d p)"
| "pages_fresh db (LoadOlder # es) p =
     (page_fresh db p \<and> pages_fresh db es (loadMoreMessages db p))"

text \<open>A sequence of group selections; the message effect runs after each of them.\<close>

fun select_all :: "firestore \<Rightarrow> group list \<Rightarrow> chats_page \<Rightarrow> chats_page" where
  "select_all db [] p = p"
| "select_all db (g # gs) p = select_all db gs (messageEffect (handleGroupSelect db g p))"

text \<open>The documents a history delivers to the live listeners.\<close>

fun delivered :: "feed_event list \<Rightarrow> message list" where
  "delivered [] = []"
| "delivered (Added h d # es) = d # delivered es"
| "delivered (LoadOlder # es) = delivered es"

text \<open>The ids of the stored messages of a group that lie behind its first page.\<close>

definition behind_first_page :: "firestore \<Rightarrow> string \<Rightarrow> string list" where
  "behind_first_page db g = message_ids (drop MESSAGES_PER_PAGE (group_feed db g))"

text \<open>
  What holds of the page once the group \<open>g\<close> is selected: the ids of the list are
  distinct and, as long as more messages are expected, the cursor is a document of the
  feed at or behind the end of the first page and no id of the list lies behind it.
\<close>

definition cursor_inv :: "firestore \<Rightarrow> group \<Rightarrow> chats_page \<Rightarrow> bool" where
  "cursor_inv db g p =
     (selectedGroup p = Some g \<and> distinct (message_ids (messages p)) \<and>
      (hasMoreMessages p \<longrightarrow>
         (\<exists>k. 25 \<le> k \<and> k \<le> length (group_feed db (group_id g))
              \<and> lastMessageRef p = Some (group_feed db (group_id g) ! (k - 1))
              \<and> set (message_ids (messages p))
                   \<inter> set (message_ids (drop k (group_feed db (group_id g)))) = {})))"

section \<open>Sample data\<close>

definition sample_message :: "string \<Rightarrow> nat \<Rightarrow> message" where
  "sample_message g n =
     \<lparr> message_id = g @ CHR ''-'' # replicate n CHR ''i'', content = ''hello'',
       senderId = ''u1'', senderName = ''ann'',
       timestamp = Some \<lparr> seconds = int n, nanoseconds = 0 \<rparr>, groupId = g,
       createdAt = None \<rparr>"

definition sample_group :: "string \<Rightarrow> group" where
  "sample_group g =
     \<lparr> group_id = g, name = ''general'', description = [], createdBy = ''u1'',
       group_createdAt = 0, members = [''u1''], group_inviteCode = None \<rparr>"

text \<open>A store that holds the group \<open>g1\<close> with \<open>n\<close> messages, sent at the seconds
  \<open>1, \<dots>, n\<close>.\<close>

definition sample_store :: "nat \<Rightarrow> firestore" where
  "sample_store n =
     \<lparr> outage = None, messages_coll = map (sample_message ''g1'') [1..<Suc n],
       groups_coll = [sample_group ''g1''] \<rparr>"

definition selected_page :: "nat \<Rightarrow> chats_page" where
  "selected_page n = handleGroupSelect (sample_store n) (sample_group ''g1'') initial_page"



text \<open>The same store while it cannot be reached.\<close>

definition offline_store :: "nat \<Rightarrow> firestore" where
  "offline_store n = (sample_store n)\<lparr>outage := Some ''unavailable''\<rparr>"

text \<open>The page after the group was selected and the listener of the message effect has
  received its first snapshot.\<close>

definition refreshed_page :: "nat \<Rightarrow> chats_page" where
  "refreshed_page n =
     onMessagesSnapshot (messagesQuery (sample_store n) ''g1'' None 25)
       (messageEffect (selected_page n))"

text \<open>A message just sent from this client: the server timestamp is pending, the
  fallback \<open>createdAt\<close> holds the time of sending.\<close>

definition pending_message :: message where
  "pending_message =
     \<lparr> message_id = ''g1-new'', content = ''hi'', senderId = ''u1'', senderName = ''ann'',
       timestamp = None, groupId = ''g1'',
       createdAt = Some ''2024-05-01T10:00:00.000Z'' \<rparr>"

text \<open>A store with two groups of two messages each.\<close>

definition two_group_store :: firestore where
  "two_group_store =
     \<lparr> outage = None,
       messages_coll = map (sample_message ''g1'') [1..<3] @ map (sample_message ''g2'') [1..<3],
       groups_coll = [sample_group ''g1'', sample_group ''g2''] \<rparr>"

text \<open>The user selects \<open>g1\<close> and then \<open>g2\<close>.\<close>

definition switched_page :: chats_page where
  "switched_page = select_all two_group_store [sample_group ''g1'', sample_group ''g2''] initial_page"

text \<open>The page after a selection of \<open>g1\<close> whose first fetch did not reach the store: the
  group is selected, no cursor is set.\<close>

definition stalled_page :: chats_page where
  "stalled_page = handleGroupSelect (offline_store 2) (sample_group ''g1'') initial_page"

text \<open>The refreshed page after the older messages have been loaded.\<close>

definition paginated_page :: "nat \<Rightarrow> chats_page" where
  "paginated_page n = loadMoreMessages (sample_store n) (refreshed_page n)"

text \<open>A store in which the group \<open>g1\<close> has an invite code.\<close>

definition invite_store :: firestore where
  "invite_store =
     \<lparr> outage = None, messages_coll = [],
       groups_coll = [(sample_group ''g1'')\<lparr>group_inviteCode := Some ''ABCD1234''\<rparr>,
                      sample_group ''g2''] \<rparr>"

text \<open>A store in which the invite code of \<open>g1\<close> is written in lower case.\<close>

definition lowercase_store :: firestore where
  "lowercase_store =
     \<lparr> outage = None, messages_coll = [],
       groups_coll = [(sample_group ''g1'')\<lparr>group_inviteCode := Some ''abcd1234''\<rparr>] \<rparr>"

text \<open>The page and the store after an invite code was generated for the selected group
  \<open>g1\<close> from the rendering \<open>rnd\<close> of the random number.\<close>

definition invited :: "string \<Rightarrow> chats_page \<times> firestore" where
  "invited rnd = generateInviteCode rnd (selected_page 2, sample_store 2)"

text \<open>The page with the form for a new group filled in.\<close>

definition naming_page :: chats_page where
  "naming_page =
     initial_page\<lparr>showCreateGroup := True, newGroupName := '' team '',
       newGroupDescription := ''the team''\<rparr>"

section \<open>Order of the calls to the backend\<close>

text \<open>Whether the call \<open>x\<close> is made before the first call \<open>y\<close>.\<close>

definition precedes :: "backend_call \<Rightarrow> backend_call \<Rightarrow> backend_call list \<Rightarrow> bool" where
  "precedes x y cs = (x \<in> set (takeWhile (\<lambda>c. c \<noteq> y) cs) \<and> y \<in> set cs)"

definition empty_backend :: auth_backend where
  "empty_backend =
     \<lparr> store_outage = None, users = Map.empty, usernames = Map.empty, accounts = [],
       calls = [] \<rparr>"

definition sample_provider :: auth_provider where
  "sample_provider =
     \<lparr> createUser = (\<lambda>em pw. Inr ''uid1''), signIn = (\<lambda>em pw. Inl UserNotFound),
       sendReset = (\<lambda>em. None) \<rparr>"

definition signup_form :: auth_page where
  "signup_form =
     \<lparr> isSignUp = True, email = ''ann@example.org'', password = ''secret1'',
       confirmPassword = ''secret1'', username = ''Ann'', error = [], resetMode = False,
       message_shown = [], loading = False, navigated = None \<rparr>"

text \<open>The same form with a mistyped confirmation.\<close>

definition mistyped_form :: auth_page where
  "mistyped_form = signup_form\<lparr>confirmPassword := ''secret2''\<rparr>"

section \<open>Properties of the message feed\<close>

subsection \<open>Message ids\<close>

lemma find_id_None:
  "(find (\<lambda>m. message_id m = i) prev = None) = (i \<notin> set (message_ids prev))"
  by (auto simp: find_None_iff message_ids_def)

lemma mergeAdded_eq:
  "mergeAdded d prev = (if message_id d \<in> set (message_ids prev) then prev else d # prev)"
  by (simp add: mergeAdded_def find_id_None)

lemma message_ids_Cons: "message_ids (d # ds) = message_id d # message_ids ds"
  by (simp add: message_ids_def)

lemma message_ids_append: "message_ids (xs @ ys) = message_ids xs @ message_ids ys"
  by (simp add: message_ids_def)

lemma distinct_ids_mergeAdded:
  "distinct (message_ids prev) \<Longrightarrow> distinct (message_ids (mergeAdded d prev))"
  by (simp add: mergeAdded_eq message_ids_Cons)

lemma distinct_map_insort_key:
  "distinct (map f (insort_key k x xs)) = (f x \<notin> f ` set xs \<and> distinct (map f xs))"
  by (induction xs) (auto simp: set_insort_key)

lemma distinct_map_sort_key:
  "distinct (map f (sort_key k xs)) = distinct (map f xs)"
  by (induction xs) (auto simp: distinct_map_insort_key)

lemma distinct_ids_group_feed:
  "distinct (message_ids (messages_coll db)) \<Longrightarrow> distinct (message_ids (group_feed db g))"
proof -
  assume "distinct (message_ids (messages_coll db))"
  then have "distinct (map message_id (where_groupId g (messages_coll db)))"
    unfolding message_ids_def where_groupId_def by (rule distinct_map_filter)
  then have "distinct (map message_id
      (filter (\<lambda>d. timestamp d \<noteq> None) (where_groupId g (messages_coll db))))"
    by (rule distinct_map_filter)
  then show ?thesis
    unfolding message_ids_def group_feed_def orderBy_timestamp_desc_def
    by (simp only: rev_map [symmetric] distinct_rev distinct_map_sort_key)
qed

lemma startAfter_eq_drop: "\<exists>k. startAfter c ds = drop k ds"
proof -
  let ?P = "\<lambda>d. message_id d \<noteq> message_id c"
  have dw: "dropWhile ?P ds = drop (length (takeWhile ?P ds)) ds"
    by (rule dropWhile_eq_drop)
  show ?thesis
  proof (cases "dropWhile ?P ds")
    case Nil
    then have "startAfter c ds = drop (length ds) ds" unfolding startAfter_def Nil by simp
    then show ?thesis by blast
  next
    case (Cons a rest)
    have "startAfter c ds = tl (dropWhile ?P ds)"
      unfolding startAfter_def Cons by simp
    then have "startAfter c ds = tl (drop (length (takeWhile ?P ds)) ds)"
      using dw by simp
    then have "startAfter c ds = drop (Suc (length (takeWhile ?P ds))) ds"
      by (simp add: drop_Suc tl_drop)
    then show ?thesis by blast
  qed
qed

lemma distinct_ids_messagesQuery:
  assumes "distinct (message_ids (messages_coll db))"
  shows "distinct (message_ids (messagesQuery db g lastRef n))"
proof -
  have d: "distinct (map message_id (group_feed db g))"
    using distinct_ids_group_feed [OF assms] by (simp add: message_ids_def)
  show ?thesis
  proof (cases lastRef)
    case None
    then show ?thesis using d
      by (simp add: messagesQuery_def message_ids_def take_map [symmetric] distinct_take)
  next
    case (Some c)
    obtain k where k: "startAfter c (group_feed db g) = drop k (group_feed db g)"
      using startAfter_eq_drop by blast
    show ?thesis using d Some k
      by (simp add: messagesQuery_def message_ids_def take_map [symmetric] drop_map [symmetric]
          distinct_take distinct_drop)
  qed
qed

lemma distinct_ids_older_page:
  "distinct (message_ids (messages_coll db)) \<Longrightarrow> distinct (message_ids (older_page db p))"
  by (simp add: older_page_def distinct_ids_messagesQuery message_ids_def [of "[]"]
      split: option.splits)

lemma messages_loadMoreMessages:
  "messages (loadMoreMessages db p) =
     (case lastMessageRef p of
        Some c \<Rightarrow> messages p @ older_page db p
      | None \<Rightarrow>
          (case selectedGroup p of
             None \<Rightarrow> messages p
           | Some g \<Rightarrow>
               if \<not> hasMoreMessages p \<or> isLoadingMore p \<or> \<not> online db then messages p
               else older_page db p))"
  by (auto simp: loadMoreMessages_def loadMessages_def applySnapshot_def older_page_def Let_def
      split: option.splits)

lemma distinct_ids_loadMoreMessages:
  assumes "distinct (message_ids (messages_coll db))"
    and "distinct (message_ids (messages p))"
    and "page_fresh db p"
  shows "distinct (message_ids (messages (loadMoreMessages db p)))"
proof (cases "lastMessageRef p")
  case None
  then show ?thesis
    using assms(2) distinct_ids_older_page [OF assms(1), of p]
    by (simp add: messages_loadMoreMessages split: option.splits)
next
  case (Some c)
  then have "\<forall>i \<in> set (message_ids (older_page db p)). i \<notin> set (message_ids (messages p))"
    using assms(3) by (simp add: page_fresh_def)
  then have "set (message_ids (messages p)) \<inter> set (message_ids (older_page db p)) = {}"
    by blast
  then show ?thesis
    using Some assms(2) distinct_ids_older_page [OF assms(1), of p]
    by (simp add: messages_loadMoreMessages message_ids_append)
qed

lemma distinct_ids_deliverAdded:
  "distinct (message_ids (messages p)) \<Longrightarrow> distinct (message_ids (messages (deliverAdded h d p)))"
  by (simp add: deliverAdded_def distinct_ids_mergeAdded)

text \<open>From any state: the list stays free of duplicate ids along a history in which
  every appended page is fresh.\<close>

lemma fresh_pages_keep_ids_distinct:
  assumes "distinct (message_ids (messages_coll db))"
    and "distinct (message_ids (messages p))"
    and "pages_fresh db es p"
  shows "distinct (message_ids (messages (run_feed db es p)))"
  using assms(2,3)
proof (induction es arbitrary: p)
  case Nil
  then show ?case by simp
next
  case (Cons e es)
  show ?case
  proof (cases e)
    case (Added h' d')
    with Cons show ?thesis by (simp add: distinct_ids_deliverAdded)
  next
    case LoadOlder
    with Cons assms(1) show ?thesis by (simp add: distinct_ids_loadMoreMessages)
  qed
qed

subsection \<open>The 30-message example\<close>

lemma dropWhile_neq_nth:
  assumes "distinct (map f ds)" and "i < length ds"
  shows "dropWhile (\<lambda>d. f d \<noteq> f (ds ! i)) ds = drop i ds"
proof -
  let ?P = "\<lambda>d. f d \<noteq> f (ds ! i)"
  have split: "ds = take i ds @ ds ! i # drop (Suc i) ds"
    using assms(2) by (rule id_take_nth_drop)
  have before: "?P x" if "x \<in> set (take i ds)" for x
  proof -
    from that obtain j where j: "j < i" "x = ds ! j"
      using assms(2) by (auto simp: in_set_conv_nth)
    have "j < length (map f ds)" "i < length (map f ds)" "j \<noteq> i"
      using assms(2) j(1) by simp_all
    then have "map f ds ! j \<noteq> map f ds ! i"
      using assms(1) nth_eq_iff_index_eq by blast
    then show ?thesis using assms(2) j by simp
  qed
  have "dropWhile ?P ds = dropWhile ?P (take i ds @ ds ! i # drop (Suc i) ds)"
    using split by simp
  also have "\<dots> = dropWhile ?P (ds ! i # drop (Suc i) ds)"
    using before by (simp add: dropWhile_append2)
  also have "\<dots> = ds ! i # drop (Suc i) ds"
    by simp
  also have "\<dots> = drop i ds"
    using assms(2) by (simp add: Cons_nth_drop_Suc)
  finally show ?thesis .
qed

lemma startAfter_nth:
  assumes "distinct (message_ids ds)" and "i < length ds"
  shows "startAfter (ds ! i) ds = drop (Suc i) ds"
proof -
  have "dropWhile (\<lambda>d. message_id d \<noteq> message_id (ds ! i)) ds = drop i ds"
    using assms by (simp add: dropWhile_neq_nth message_ids_def)
  moreover have "drop i ds = ds ! i # drop (Suc i) ds"
    using assms(2) by (simp add: Cons_nth_drop_Suc)
  ultimately show ?thesis
    by (simp add: startAfter_def)
qed


lemma set_group_feed:
  "set (group_feed db g) = {d \<in> set (messages_coll db). groupId d = g \<and> timestamp d \<noteq> None}"
  by (auto simp: group_feed_def orderBy_timestamp_desc_def where_groupId_def)






lemma handleGroupSelect_online:
  assumes "online db"
  shows "messages (handleGroupSelect db g p) = take 25 (group_feed db (group_id g))"
    and "hasMoreMessages (handleGroupSelect db g p) = (length (take 25 (group_feed db (group_id g))) = 25)"
    and "lastMessageRef (handleGroupSelect db g p) =
           (if take 25 (group_feed db (group_id g)) = [] then None
            else Some (last (take 25 (group_feed db (group_id g)))))"
    and "selectedGroup (handleGroupSelect db g p) = Some g"
    and "isLoadingMore (handleGroupSelect db g p) = isLoadingMore p"
  using assms
  by (simp_all add: handleGroupSelect_def messagesQuery_def Let_def MESSAGES_PER_PAGE_def
      split: option.splits)


lemma loadMoreMessages_cursor:
  assumes "selectedGroup p = Some g" and "hasMoreMessages p" and "\<not> isLoadingMore p"
    and "online db" and "lastMessageRef p = Some c"
  shows "messages (loadMoreMessages db p) =
           messages p @ take 25 (startAfter c (group_feed db (group_id g)))"
    and "hasMoreMessages (loadMoreMessages db p) =
           (length (take 25 (startAfter c (group_feed db (group_id g)))) = 25)"
    and "lastMessageRef (loadMoreMessages db p) =
           Some (if take 25 (startAfter c (group_feed db (group_id g))) = [] then c
                 else last (take 25 (startAfter c (group_feed db (group_id g)))))"
    and "isLoadingMore (loadMoreMessages db p) = False"
    and "fetchLog (loadMoreMessages db p) = fetchLog p @ [(group_id g, Some c)]"
  using assms
  by (simp_all add: loadMoreMessages_def loadMessages_def applySnapshot_def messagesQuery_def
      Let_def MESSAGES_PER_PAGE_def)







subsection \<open>No duplicate ids after a selection\<close>

lemma ids_take_drop_disjoint:
  assumes "distinct (message_ids xs)"
  shows "set (message_ids (take n xs)) \<inter> set (message_ids (drop n xs)) = {}"
proof -
  have "distinct (message_ids (take n xs @ drop n xs))" using assms by simp
  then show ?thesis unfolding message_ids_append distinct_append by blast
qed

lemma ids_drop_mono:
  "m \<le> n \<Longrightarrow> set (message_ids (drop n xs)) \<subseteq> set (message_ids (drop m xs))"
  unfolding message_ids_def using set_drop_subset_set_drop [of m n xs] by auto

lemma distinct_ids_drop: "distinct (message_ids xs) \<Longrightarrow> distinct (message_ids (drop n xs))"
  by (simp add: message_ids_def drop_map [symmetric] distinct_drop)

lemma distinct_ids_take: "distinct (message_ids xs) \<Longrightarrow> distinct (message_ids (take n xs))"
  by (simp add: message_ids_def take_map [symmetric] distinct_take)

lemma cursor_inv_select:
  assumes "online db" and "distinct (message_ids (messages_coll db))"
  shows "cursor_inv db g (handleGroupSelect db g p)"
proof -
  let ?feed = "group_feed db (group_id g)"
  let ?p = "handleGroupSelect db g p"
  have d: "distinct (message_ids ?feed)" using assms(2) by (rule distinct_ids_group_feed)
  have m: "messages ?p = take 25 ?feed" using assms(1) by (rule handleGroupSelect_online)
  have s: "selectedGroup ?p = Some g" using assms(1) by (rule handleGroupSelect_online)
  have dm: "distinct (message_ids (messages ?p))" unfolding m using d by (rule distinct_ids_take)
  have more: "\<exists>k. 25 \<le> k \<and> k \<le> length ?feed \<and> lastMessageRef ?p = Some (?feed ! (k - 1))
      \<and> set (message_ids (messages ?p)) \<inter> set (message_ids (drop k ?feed)) = {}"
    if h: "hasMoreMessages ?p"
  proof -
    have len: "25 \<le> length ?feed"
      using h handleGroupSelect_online(2) [OF assms(1), of g p] by simp
    then have ne: "take 25 ?feed \<noteq> []" by auto
    have "last (take 25 ?feed) = ?feed ! 24"
      using len ne by (simp add: last_conv_nth)
    then have c: "lastMessageRef ?p = Some (?feed ! (25 - 1))"
      using handleGroupSelect_online(3) [OF assms(1), of g p] ne by simp
    have dis: "set (message_ids (messages ?p)) \<inter> set (message_ids (drop 25 ?feed)) = {}"
      unfolding m using d by (rule ids_take_drop_disjoint)
    show ?thesis using len c dis by blast
  qed
  show ?thesis unfolding cursor_inv_def using s dm more by blast
qed

lemma cursor_inv_deliverAdded:
  assumes "cursor_inv db g p"
    and "message_id d \<notin> set (behind_first_page db (group_id g))"
  shows "cursor_inv db g (deliverAdded h d p)"
proof -
  let ?feed = "group_feed db (group_id g)"
  let ?p = "deliverAdded h d p"
  have same: "selectedGroup ?p = selectedGroup p" "hasMoreMessages ?p = hasMoreMessages p"
    "lastMessageRef ?p = lastMessageRef p"
    by (simp_all add: deliverAdded_def)
  have dm: "distinct (message_ids (messages ?p))"
    using assms(1) by (simp add: cursor_inv_def distinct_ids_deliverAdded)
  have sub: "set (message_ids (messages ?p)) \<subseteq> insert (message_id d) (set (message_ids (messages p)))"
    by (auto simp: deliverAdded_def mergeAdded_eq message_ids_Cons)
  have more: "\<exists>k. 25 \<le> k \<and> k \<le> length ?feed \<and> lastMessageRef ?p = Some (?feed ! (k - 1))
      \<and> set (message_ids (messages ?p)) \<inter> set (message_ids (drop k ?feed)) = {}"
    if h: "hasMoreMessages ?p"
  proof -
    from h assms(1) obtain k where k: "25 \<le> k" "k \<le> length ?feed"
      "lastMessageRef p = Some (?feed ! (k - 1))"
      "set (message_ids (messages p)) \<inter> set (message_ids (drop k ?feed)) = {}"
      unfolding cursor_inv_def same by blast
    have "set (message_ids (drop k ?feed)) \<subseteq> set (message_ids (drop 25 ?feed))"
      using k(1) by (rule ids_drop_mono)
    then have "message_id d \<notin> set (message_ids (drop k ?feed))"
      using assms(2) by (auto simp: behind_first_page_def MESSAGES_PER_PAGE_def)
    then have "set (message_ids (messages ?p)) \<inter> set (message_ids (drop k ?feed)) = {}"
      using sub k(4) by blast
    then show ?thesis using k(1,2,3) same(3) by auto
  qed
  show ?thesis unfolding cursor_inv_def using assms(1) same(1) dm more
    by (simp add: cursor_inv_def)
qed

lemma selectedGroup_loadMoreMessages:
  "selectedGroup (loadMoreMessages db p) = selectedGroup p"
  by (auto simp: loadMoreMessages_def loadMessages_def applySnapshot_def Let_def
      split: option.splits)

lemma cursor_inv_loadMoreMessages:
  assumes "cursor_inv db g p" and "online db" and "distinct (message_ids (messages_coll db))"
  shows "cursor_inv db g (loadMoreMessages db p)"
proof (cases "hasMoreMessages p \<and> \<not> isLoadingMore p")
  case False
  then have "loadMoreMessages db p = p"
    by (auto simp: loadMoreMessages_def split: option.splits)
  then show ?thesis using assms(1) by simp
next
  case True
  let ?feed = "group_feed db (group_id g)"
  let ?p = "loadMoreMessages db p"
  have sel: "selectedGroup p = Some g" using assms(1) by (simp add: cursor_inv_def)
  have d: "distinct (message_ids ?feed)" using assms(3) by (rule distinct_ids_group_feed)
  from True assms(1) obtain k where k: "25 \<le> k" "k \<le> length ?feed"
    "lastMessageRef p = Some (?feed ! (k - 1))"
    "set (message_ids (messages p)) \<inter> set (message_ids (drop k ?feed)) = {}"
    unfolding cursor_inv_def by blast
  have "startAfter (?feed ! (k - 1)) ?feed = drop (Suc (k - 1)) ?feed"
    using d k(1,2) by (intro startAfter_nth) auto
  then have after: "startAfter (?feed ! (k - 1)) ?feed = drop k ?feed"
    using k(1) by simp
  let ?page = "take 25 (drop k ?feed)"
  note lc = loadMoreMessages_cursor [OF sel conjunct1 [OF True] conjunct2 [OF True] assms(2) k(3)]
  have facts: "messages ?p = messages p @ ?page"
    "hasMoreMessages ?p = (length ?page = 25)"
    "lastMessageRef ?p = Some (if ?page = [] then ?feed ! (k - 1) else last ?page)"
    using lc(1,2,3) unfolding after by blast+
  have sel': "selectedGroup ?p = Some g"
    using sel by (simp add: selectedGroup_loadMoreMessages)
  have dpage: "distinct (message_ids ?page)"
    using d by (intro distinct_ids_take distinct_ids_drop)
  have "set (message_ids ?page) \<subseteq> set (message_ids (drop k ?feed))"
    unfolding message_ids_def using set_take_subset [of 25 "drop k ?feed"] by auto
  then have dis: "set (message_ids (messages p)) \<inter> set (message_ids ?page) = {}"
    using k(4) by blast
  have dm: "distinct (message_ids (messages ?p))"
    using assms(1) dpage dis by (simp add: facts(1) message_ids_append cursor_inv_def)
  have more: "\<exists>k'. 25 \<le> k' \<and> k' \<le> length ?feed \<and> lastMessageRef ?p = Some (?feed ! (k' - 1))
      \<and> set (message_ids (messages ?p)) \<inter> set (message_ids (drop k' ?feed)) = {}"
    if h: "hasMoreMessages ?p"
  proof -
    have len: "length ?page = 25" using h facts(2) by simp
    then have kl: "k + 25 \<le> length ?feed" by simp
    have ne: "?page \<noteq> []" using len by auto
    have "last ?page = ?page ! 24" using len ne by (simp add: last_conv_nth)
    also have "\<dots> = ?feed ! (k + 24)" using kl by simp
    finally have "last ?page = ?feed ! (k + 24)" .
    moreover have "k + 25 - 1 = k + 24" by simp
    ultimately have c: "lastMessageRef ?p = Some (?feed ! (k + 25 - 1))"
      using facts(3) ne by (simp only: if_False)
    have "set (message_ids (drop (k + 25) ?feed)) \<subseteq> set (message_ids (drop k ?feed))"
      by (rule ids_drop_mono) simp
    then have a: "set (message_ids (messages p)) \<inter> set (message_ids (drop (k + 25) ?feed)) = {}"
      using k(4) by blast
    have "set (message_ids (take 25 (drop k ?feed)))
            \<inter> set (message_ids (drop 25 (drop k ?feed))) = {}"
      using d by (intro ids_take_drop_disjoint distinct_ids_drop)
    then have b: "set (message_ids ?page) \<inter> set (message_ids (drop (k + 25) ?feed)) = {}"
      by (simp add: add.commute)
    have "set (message_ids (messages ?p)) \<inter> set (message_ids (drop (k + 25) ?feed)) = {}"
      using a b by (auto simp: facts(1) message_ids_append)
    moreover have "25 \<le> k + 25" by simp
    ultimately show ?thesis using kl c by blast
  qed
  show ?thesis unfolding cursor_inv_def using sel' dm more by blast
qed

lemma cursor_inv_run_feed:
  assumes "online db" and "distinct (message_ids (messages_coll db))"
  shows "cursor_inv db g p \<Longrightarrow>
         list_all (\<lambda>d. message_id d \<notin> set (behind_first_page db (group_id g))) (delivered es) \<Longrightarrow>
         cursor_inv db g (run_feed db es p)"
proof (induction es arbitrary: p)
  case Nil
  then show ?case by simp
next
  case (Cons e es)
  show ?case
  proof (cases e)
    case (Added h d)
    with Cons show ?thesis by (simp add: cursor_inv_deliverAdded)
  next
    case LoadOlder
    with Cons assms show ?thesis by (simp add: cursor_inv_loadMoreMessages)
  qed
qed

text \<open>
  Claim C1, as the code has it. The callback of the live listener inserts a delivered
  document only when no entry of the list has its id. \<open>loadMoreMessages\<close> appends the
  fetched page without looking at the ids. So after a group is selected the list stays
  free of duplicate ids along every history of deliveries and pagination fetches in
  which the listener delivers no stored document that lies behind the first page, the
  documents the pagination fetches append.
\<close>

theorem no_duplicate_ids:
  "messages (deliverAdded h d p) =
     (if h \<in> fst ` set (listeners p) \<and> message_id d \<notin> set (message_ids (messages p))
      then d # messages p else messages p)
   \<and> (online db \<longrightarrow> distinct (message_ids (messages_coll db)) \<longrightarrow>
        list_all (\<lambda>d. message_id d \<notin> set (behind_first_page db (group_id g))) (delivered es) \<longrightarrow>
        distinct (message_ids (messages (run_feed db es (handleGroupSelect db g p)))))"
proof (intro conjI impI)
  show "messages (deliverAdded h d p) =
     (if h \<in> fst ` set (listeners p) \<and> message_id d \<notin> set (message_ids (messages p))
      then d # messages p else messages p)"
    by (simp add: deliverAdded_def mergeAdded_eq)
next
  assume a: "online db" "distinct (message_ids (messages_coll db))"
    "list_all (\<lambda>d. message_id d \<notin> set (behind_first_page db (group_id g))) (delivered es)"
  have "cursor_inv db g (handleGroupSelect db g p)"
    using a(1,2) by (rule cursor_inv_select)
  then have "cursor_inv db g (run_feed db es (handleGroupSelect db g p))"
    using a(3) by (rule cursor_inv_run_feed [OF a(1,2)])
  then show "distinct (message_ids (messages (run_feed db es (handleGroupSelect db g p))))"
    by (simp add: cursor_inv_def)
qed

text \<open>Claim C1, an instance: a group of 30 messages is selected, a new message is
  delivered, the older page is loaded, and the new message and the newest stored one
  are delivered once more.\<close>

theorem no_duplicate_ids_witness:
  "online (sample_store 30)
   \<and> distinct (message_ids (messages_coll (sample_store 30)))
   \<and> list_all (\<lambda>d. message_id d \<notin> set (behind_first_page (sample_store 30) ''g1''))
        (delivered [Added 0 (sample_message ''g1'' 31), LoadOlder,
                    Added 0 (sample_message ''g1'' 31), Added 0 (sample_message ''g1'' 30)])
   \<and> distinct (message_ids (messages (run_feed (sample_store 30)
        [Added 0 (sample_message ''g1'' 31), LoadOlder,
         Added 0 (sample_message ''g1'' 31), Added 0 (sample_message ''g1'' 30)]
        (selected_page 30))))
   \<and> length (messages (run_feed (sample_store 30)
        [Added 0 (sample_message ''g1'' 31), LoadOlder,
         Added 0 (sample_message ''g1'' 31), Added 0 (sample_message ''g1'' 30)]
        (selected_page 30))) = 31"
proof -
  let ?es = "[Added 0 (sample_message ''g1'' 31), LoadOlder,
              Added 0 (sample_message ''g1'' 31), Added 0 (sample_message ''g1'' 30)]"
  have h1: "online (sample_store 30)" by code_simp
  have h2: "distinct (message_ids (messages_coll (sample_store 30)))" by code_simp
  have h3: "list_all (\<lambda>d. message_id d \<notin> set (behind_first_page (sample_store 30) ''g1''))
              (delivered ?es)" by code_simp
  have g: "group_id (sample_group ''g1'') = ''g1''" by code_simp
  have h4: "length (messages (run_feed (sample_store 30) ?es (selected_page 30))) = 31"
    by code_simp
  from no_duplicate_ids [of 0 "sample_message ''g1'' 31" initial_page "sample_store 30"
      "sample_group ''g1''" ?es]
  have "distinct (message_ids (messages (run_feed (sample_store 30) ?es (selected_page 30))))"
    using h1 h2 h3 unfolding g selected_page_def by blast
  with h1 h2 h3 h4 show ?thesis by blast
qed

text \<open>Claim C1 as stated fails: in a group of 26 messages the listener delivers the
  oldest message, which lies behind the first page, and the pagination fetch appends it
  again.\<close>

theorem duplicate_ids_counterexample:
  "online (sample_store 26)
   \<and> distinct (message_ids (messages_coll (sample_store 26)))
   \<and> \<not> distinct (message_ids (messages (run_feed (sample_store 26)
        [Added 0 (sample_message ''g1'' 1), LoadOlder] (selected_page 26))))"
  by code_simp

subsection \<open>Display order\<close>

text \<open>
  Claim C2 evaluated on the code. After the first fetch of a group with three messages
  the list is newest first; after the older page is appended to the list sorted by the
  message effect, and after a live message is added to it, the list is not ascending;
  and the sort key of a message whose server timestamp is pending is 0, whatever its
  \<open>createdAt\<close>, so that the message just sent is listed before an older one.
\<close>

theorem feed_order_violations:
  "\<not> sorted (map timeOf (messages (selected_page 3)))
   \<and> \<not> sorted (map timeOf (messages (paginated_page 27)))
   \<and> \<not> sorted (map timeOf (messages (deliverAdded 0 (sample_message ''g1'' 28) (refreshed_page 27))))
   \<and> timeOf pending_message = 0
   \<and> messages (onMessagesSnapshot [pending_message, sample_message ''g1'' 5] (refreshed_page 5))
        = [pending_message, sample_message ''g1'' 5]"
  by code_simp

subsection \<open>Loading older messages\<close>

text \<open>
  Claim C4, as the code has it. \<open>loadMoreMessages\<close> returns the state as it is, and
  issues no fetch, when no group is selected, a load is in flight or \<open>hasMoreMessages\<close>
  is false. Otherwise, with a cursor, it fetches up to 25 documents after the cursor,
  appends them to the list, moves the cursor to the last fetched document when there is
  one, and sets \<open>hasMoreMessages\<close> to whether 25 were fetched. A missing cursor does not
  stop it: with a group selected the first page is fetched and replaces the list.
\<close>

theorem loadMore_guard_and_append:
  "(selectedGroup p = None \<or> isLoadingMore p \<or> \<not> hasMoreMessages p
      \<longrightarrow> loadMoreMessages db p = p)
   \<and> (selectedGroup p = Some g \<and> \<not> isLoadingMore p \<and> hasMoreMessages p \<and> online db
        \<and> lastMessageRef p = Some c
      \<longrightarrow> (let docs = take 25 (startAfter c (group_feed db (group_id g)));
               p' = loadMoreMessages db p
           in messages p' = messages p @ docs
              \<and> lastMessageRef p' = Some (if docs = [] then c else last docs)
              \<and> hasMoreMessages p' = (length docs = 25)
              \<and> \<not> isLoadingMore p'
              \<and> fetchLog p' = fetchLog p @ [(group_id g, Some c)]))
   \<and> (selectedGroup p = Some g \<and> \<not> isLoadingMore p \<and> hasMoreMessages p \<and> online db
        \<and> lastMessageRef p = None
      \<longrightarrow> (let docs = take 25 (group_feed db (group_id g));
               p' = loadMoreMessages db p
           in messages p' = docs
              \<and> lastMessageRef p' = (if docs = [] then None else Some (last docs))
              \<and> hasMoreMessages p' = (length docs = 25)
              \<and> \<not> isLoadingMore p'
              \<and> fetchLog p' = fetchLog p @ [(group_id g, None)]))"
proof (intro conjI impI)
  assume "selectedGroup p = None \<or> isLoadingMore p \<or> \<not> hasMoreMessages p"
  then show "loadMoreMessages db p = p"
    by (auto simp: loadMoreMessages_def split: option.splits)
next
  assume a: "selectedGroup p = Some g \<and> \<not> isLoadingMore p \<and> hasMoreMessages p \<and> online db
        \<and> lastMessageRef p = Some c"
  then show "let docs = take 25 (startAfter c (group_feed db (group_id g)));
               p' = loadMoreMessages db p
           in messages p' = messages p @ docs
              \<and> lastMessageRef p' = Some (if docs = [] then c else last docs)
              \<and> hasMoreMessages p' = (length docs = 25)
              \<and> \<not> isLoadingMore p'
              \<and> fetchLog p' = fetchLog p @ [(group_id g, Some c)]"
    by (simp add: loadMoreMessages_def loadMessages_def applySnapshot_def messagesQuery_def
        Let_def MESSAGES_PER_PAGE_def)
next
  assume a: "selectedGroup p = Some g \<and> \<not> isLoadingMore p \<and> hasMoreMessages p \<and> online db
        \<and> lastMessageRef p = None"
  then show "let docs = take 25 (group_feed db (group_id g));
               p' = loadMoreMessages db p
           in messages p' = docs
              \<and> lastMessageRef p' = (if docs = [] then None else Some (last docs))
              \<and> hasMoreMessages p' = (length docs = 25)
              \<and> \<not> isLoadingMore p'
              \<and> fetchLog p' = fetchLog p @ [(group_id g, None)]"
    by (simp add: loadMoreMessages_def loadMessages_def applySnapshot_def messagesQuery_def
        Let_def MESSAGES_PER_PAGE_def)
qed

text \<open>Claim C4, an instance: no group selected; then the group of 30 messages, where
  the second call loads the last 5 and the third call is stopped by the guard.\<close>

theorem loadMore_guard_and_append_witness:
  "loadMoreMessages (sample_store 30) initial_page = initial_page
   \<and> selectedGroup (selected_page 30) = Some (sample_group ''g1'')
   \<and> \<not> isLoadingMore (selected_page 30) \<and> hasMoreMessages (selected_page 30)
   \<and> online (sample_store 30)
   \<and> lastMessageRef (selected_page 30) = Some (sample_message ''g1'' 6)
   \<and> length (messages (loadMoreMessages (sample_store 30) (selected_page 30))) = 30
   \<and> lastMessageRef (loadMoreMessages (sample_store 30) (selected_page 30))
        = Some (sample_message ''g1'' 1)
   \<and> \<not> hasMoreMessages (loadMoreMessages (sample_store 30) (selected_page 30))
   \<and> loadMoreMessages (sample_store 30) (loadMoreMessages (sample_store 30) (selected_page 30))
        = loadMoreMessages (sample_store 30) (selected_page 30)"
proof -
  let ?db = "sample_store 30" and ?p = "selected_page 30" and ?g = "sample_group ''g1''"
  let ?c = "sample_message ''g1'' 6"
  let ?docs = "take 25 (startAfter ?c (group_feed ?db (group_id ?g)))"
  have h0: "selectedGroup initial_page = None" by code_simp
  have h1: "selectedGroup ?p = Some ?g" by code_simp
  have h2: "\<not> isLoadingMore ?p" by code_simp
  have h3: "hasMoreMessages ?p" by code_simp
  have h4: "online ?db" by code_simp
  have h5: "lastMessageRef ?p = Some ?c" by code_simp
  have d1: "length ?docs = 5" by code_simp
  have d2: "last ?docs = sample_message ''g1'' 1" by code_simp
  have d3: "length (messages ?p) = 25" by code_simp
  have w0: "loadMoreMessages ?db initial_page = initial_page"
    using loadMore_guard_and_append [of initial_page ?db ?g ?c] h0 by blast
  have w1: "let docs = ?docs; p' = loadMoreMessages ?db ?p
            in messages p' = messages ?p @ docs
              \<and> lastMessageRef p' = Some (if docs = [] then ?c else last docs)
              \<and> hasMoreMessages p' = (length docs = 25)
              \<and> \<not> isLoadingMore p'
              \<and> fetchLog p' = fetchLog ?p @ [(group_id ?g, Some ?c)]"
    using loadMore_guard_and_append [of ?p ?db ?g ?c] h1 h2 h3 h4 h5 by blast
  have m: "length (messages (loadMoreMessages ?db ?p)) = 30"
    using w1 d1 d3 by (simp add: Let_def)
  have ne: "?docs \<noteq> []" using d1 by auto
  have c: "lastMessageRef (loadMoreMessages ?db ?p) = Some (sample_message ''g1'' 1)"
    using w1 ne d2 by (simp add: Let_def)
  have hm: "\<not> hasMoreMessages (loadMoreMessages ?db ?p)"
    using w1 d1 by (simp add: Let_def)
  have w2: "loadMoreMessages ?db (loadMoreMessages ?db ?p) = loadMoreMessages ?db ?p"
    using loadMore_guard_and_append [of "loadMoreMessages ?db ?p" ?db ?g ?c] hm by blast
  show ?thesis using w0 h1 h2 h3 h4 h5 m c hm w2 by blast
qed

text \<open>Claim C4 as stated fails: on the page whose first fetch did not reach the
  store there is no cursor, and \<open>loadMoreMessages\<close> fetches and changes the list, the
  cursor and \<open>hasMoreMessages\<close>.\<close>

theorem loadMore_without_cursor_counterexample:
  "lastMessageRef stalled_page = None
   \<and> messages stalled_page = []
   \<and> fetchLog stalled_page = [(''g1'', None)]
   \<and> hasMoreMessages stalled_page
   \<and> messages (loadMoreMessages (sample_store 2) stalled_page)
        = [sample_message ''g1'' 2, sample_message ''g1'' 1]
   \<and> lastMessageRef (loadMoreMessages (sample_store 2) stalled_page)
        = Some (sample_message ''g1'' 1)
   \<and> \<not> hasMoreMessages (loadMoreMessages (sample_store 2) stalled_page)
   \<and> fetchLog (loadMoreMessages (sample_store 2) stalled_page)
        = [(''g1'', None), (''g1'', None)]"
  by code_simp

subsection \<open>Live listeners\<close>

lemma handleGroupSelect_never_detaches:
  assumes "messageListener p = None" and "online db"
  shows "listeners (handleGroupSelect db g p) = listeners p @ [(nextHandle p, group_id g)]"
    and "messageListener (handleGroupSelect db g p) = None"
  using assms by (simp_all add: handleGroupSelect_def Let_def)

text \<open>Along every sequence of selections all the listeners of \<open>handleGroupSelect\<close> stay
  attached; only the listener of the message effect follows the selection.\<close>

lemma select_all_keeps_listeners:
  assumes "online db"
  shows "messageListener p = None \<Longrightarrow>
         messageListener (select_all db gs p) = None
         \<and> map snd (listeners (select_all db gs p)) = map snd (listeners p) @ map group_id gs"
proof (induction gs arbitrary: p)
  case Nil
  then show ?case by simp
next
  case (Cons g gs)
  let ?p = "messageEffect (handleGroupSelect db g p)"
  have "messageListener ?p = None"
    using handleGroupSelect_never_detaches(2) [OF Cons.prems assms]
    by (simp add: messageEffect_def)
  moreover have "map snd (listeners ?p) = map snd (listeners p) @ [group_id g]"
    using handleGroupSelect_never_detaches(1) [OF Cons.prems assms]
    by (simp add: messageEffect_def)
  ultimately show ?case using Cons.IH [of ?p] by simp
qed

lemma select_all_effectListener:
  "gs \<noteq> [] \<Longrightarrow> effectListener (select_all db gs p) = Some (group_id (last gs))"
proof (induction gs arbitrary: p)
  case Nil
  then show ?case by simp
next
  case (Cons g gs)
  show ?case
  proof (cases "gs = []")
    case True
    then show ?thesis by (simp add: messageEffect_def handleGroupSelect_def Let_def split: option.splits)
  next
    case False
    then show ?thesis using Cons.IH by simp
  qed
qed

text \<open>
  Claim C5 evaluated on the code. After the groups \<open>g1\<close> and \<open>g2\<close> have been selected
  one after the other, both listeners of \<open>handleGroupSelect\<close> are attached, and a new
  message of \<open>g1\<close> delivered to the first one enters the list of \<open>g2\<close>.
\<close>

theorem listener_leak_on_switch:
  "listeners switched_page = [(0, ''g1''), (1, ''g2'')]
   \<and> messageListener switched_page = None
   \<and> effectListener switched_page = Some ''g2''
   \<and> map_option group_id (selectedGroup switched_page) = Some ''g2''
   \<and> map groupId (messages switched_page) = [''g2'', ''g2'']
   \<and> map groupId (messages (deliverAdded 0 (sample_message ''g1'' 3) switched_page))
        = [''g1'', ''g2'', ''g2'']"
  by code_simp

section \<open>Properties of groups and invite codes\<close>

subsection \<open>Generating an invite code\<close>

text \<open>What the generated code is in general: the first eight characters after the
  first two of the rendering, in upper case.\<close>

lemma length_newInviteCode:
  "length (newInviteCode rnd) = min 8 (length rnd - 2)"
  by (simp add: newInviteCode_def asciiUpperCase_def substring_def)

lemma toUpperChar_base36: "isBase36Digit c \<Longrightarrow> isUpperAlnum (toUpperChar c)"
  by (auto simp: isBase36Digit_def isUpperAlnum_def toUpperChar_def digits_def lowerLetters_def
      upperLetters_def)

lemma newInviteCode_upper_alnum:
  assumes "list_all isBase36Digit (drop 2 rnd)"
  shows "list_all isUpperAlnum (newInviteCode rnd)"
proof -
  have "set (take 8 (drop 2 rnd)) \<subseteq> set (drop 2 rnd)" by (rule set_take_subset)
  then have "\<forall>c \<in> set (take 8 (drop 2 rnd)). isBase36Digit c"
    using assms by (auto simp: list_all_iff)
  then show ?thesis
    by (simp add: newInviteCode_def asciiUpperCase_def substring_def list_all_iff toUpperChar_base36)
qed

text \<open>The code is stored on the selected group in place of the previous one, and a
  different previous code no longer finds the group.\<close>

lemma generateInviteCode_overwrites:
  assumes "selectedGroup p = Some g" and "online db" and "d \<in> set (groups_coll db)"
    and "group_id d = group_id g"
  shows "d\<lparr>group_inviteCode := Some (newInviteCode rnd)\<rparr>
           \<in> set (groups_coll (snd (generateInviteCode rnd (p, db))))"
proof -
  have "group_id d \<in> set (map group_id (groups_coll db))"
    using assms(3) by simp
  then have ex: "group_exists (group_id g) (groups_coll db)"
    unfolding group_exists_def assms(4) .
  have "(\<lambda>x. if group_id x = group_id g then x\<lparr>group_inviteCode := Some (newInviteCode rnd)\<rparr> else x) d
          \<in> (\<lambda>x. if group_id x = group_id g then x\<lparr>group_inviteCode := Some (newInviteCode rnd)\<rparr> else x)
              ` set (groups_coll db)"
    using assms(3) by (rule imageI)
  then show ?thesis
    using assms(1,2,4) ex by (simp add: generateInviteCode_def updateDoc_group_def Let_def)
qed

lemma old_code_no_longer_resolves:
  assumes "selectedGroup p = Some g" and "online db"
    and "group_exists (group_id g) (groups_coll db)" and "newInviteCode rnd \<noteq> old"
  shows "map_option group_id (resolveInviteCode old (snd (generateInviteCode rnd (p, db))))
           \<noteq> Some (group_id g)"
proof
  let ?db = "snd (generateInviteCode rnd (p, db))"
  assume "map_option group_id (resolveInviteCode old ?db) = Some (group_id g)"
  then obtain d rest where m: "where_inviteCode old (groups_coll ?db) = d # rest"
    and i: "group_id d = group_id g"
    by (auto simp: resolveInviteCode_def split: list.splits)
  have "d \<in> set (where_inviteCode old (groups_coll ?db))" using m by simp
  then have "d \<in> set (groups_coll ?db)" and c: "group_inviteCode d = Some old"
    by (simp_all add: where_inviteCode_def)
  then have "group_inviteCode d = Some (newInviteCode rnd)"
    using assms(1,2,3) i
    by (auto simp: generateInviteCode_def updateDoc_group_def Let_def split: if_splits)
  then show False using c assms(4) by simp
qed

text \<open>
  Claim C6 evaluated on the code. For the random number 0.5, rendered \<open>0.i\<close> in base
  36, the invite code stored on the group is the single character \<open>I\<close>; for the random
  number 0 it is the empty string, a code \<open>handleJoinGroup\<close> ignores.
\<close>

theorem short_invite_code:
  "newInviteCode ''0.i'' = ''I''
   \<and> newInviteCode ''0'' = []
   \<and> inviteCode (fst (invited ''0.i'')) = ''I''
   \<and> map group_inviteCode (groups_coll (snd (invited ''0.i''))) = [Some ''I'']
   \<and> map group_inviteCode (groups_coll (snd (invited ''0''))) = [Some []]
   \<and> handleJoinGroup asciiUpperCase (Some ''u2'') [] (initial_page, snd (invited ''0''))
        = (initial_page, snd (invited ''0''))"
  by code_simp

subsection \<open>Joining a group\<close>

lemma first_match_mem:
  assumes "where_inviteCode key ds = gd # rest"
  shows "gd \<in> set ds" and "group_inviteCode gd = Some key"
proof -
  have "gd \<in> set (where_inviteCode key ds)" using assms by simp
  then show "gd \<in> set ds" and "group_inviteCode gd = Some key"
    by (simp_all add: where_inviteCode_def)
qed

lemma updateDoc_group_distinct:
  assumes "distinct (map group_id ds)" and "gd \<in> set ds"
  shows "updateDoc_group (group_id gd) f ds = map (\<lambda>d. if d = gd then f gd else d) ds"
proof -
  have "(group_id d = group_id gd) = (d = gd)" if "d \<in> set ds" for d
    using assms that by (auto simp: distinct_map dest: inj_onD)
  then show ?thesis
    by (auto simp: updateDoc_group_def)
qed

text \<open>
  Claim C7, as the code has it, for whatever \<open>toUpperCase\<close> the runtime provides. Without
  a signed-in user, or with a code that is blank after trimming, \<open>handleJoinGroup\<close>
  returns at once: nothing changes and no error is shown. Otherwise, when the store is
  reached, the group is looked up by the trimmed, upper-cased code. Without a stored code
  equal to it the join fails with \<open>Invalid invite code\<close>; when the user is a member of the
  first match it fails with \<open>You are already a member of this group\<close>; either way the
  store is unchanged. Otherwise the user id is added at the end of the member array of
  that group, and nothing else changes in the store.
\<close>

theorem join_by_invite_code:
  "(currentUser = None \<or> trim code = [] \<longrightarrow>
      handleJoinGroup toUpperCase currentUser code (p, db) = (p, db))
   \<and> (trim code \<noteq> [] \<and> online db \<and> distinct (map group_id (groups_coll db)) \<longrightarrow>
        (where_inviteCode (toUpperCase (trim code)) (groups_coll db) = [] \<longrightarrow>
           handleJoinGroup toUpperCase (Some uid) code (p, db) =
             (p\<lparr>alerts := alerts p @ [''Invalid invite code''], joining := False\<rparr>, db))
        \<and> (\<forall>gd rest.
              where_inviteCode (toUpperCase (trim code)) (groups_coll db) = gd # rest \<longrightarrow>
              (uid \<in> set (members gd) \<longrightarrow>
                 handleJoinGroup toUpperCase (Some uid) code (p, db) =
                   (p\<lparr>alerts := alerts p @ [''You are already a member of this group''],
                      joining := False\<rparr>, db))
              \<and> (uid \<notin> set (members gd) \<longrightarrow>
                 handleJoinGroup toUpperCase (Some uid) code (p, db) =
                   (p\<lparr>showJoinModal := False, inviteCode := [], joining := False\<rparr>,
                    db\<lparr>groups_coll :=
                         map (\<lambda>d. if d = gd then gd\<lparr>members := members gd @ [uid]\<rparr> else d)
                           (groups_coll db)\<rparr>))))"
proof (intro conjI allI impI)
  assume "currentUser = None \<or> trim code = []"
  then show "handleJoinGroup toUpperCase currentUser code (p, db) = (p, db)"
    by (auto simp: handleJoinGroup_def split: option.splits)
next
  assume h: "trim code \<noteq> [] \<and> online db \<and> distinct (map group_id (groups_coll db))"
    and "where_inviteCode (toUpperCase (trim code)) (groups_coll db) = []"
  then show "handleJoinGroup toUpperCase (Some uid) code (p, db) =
          (p\<lparr>alerts := alerts p @ [''Invalid invite code''], joining := False\<rparr>, db)"
    by (simp add: handleJoinGroup_def online_def)
next
  fix gd rest
  assume h: "trim code \<noteq> [] \<and> online db \<and> distinct (map group_id (groups_coll db))"
    and m: "where_inviteCode (toUpperCase (trim code)) (groups_coll db) = gd # rest"
    and u: "uid \<in> set (members gd)"
  then show "handleJoinGroup toUpperCase (Some uid) code (p, db) =
               (p\<lparr>alerts := alerts p @ [''You are already a member of this group''],
                  joining := False\<rparr>, db)"
    by (simp add: handleJoinGroup_def online_def)
next
  fix gd rest
  assume h: "trim code \<noteq> [] \<and> online db \<and> distinct (map group_id (groups_coll db))"
    and m: "where_inviteCode (toUpperCase (trim code)) (groups_coll db) = gd # rest"
    and u: "uid \<notin> set (members gd)"
  have mem: "gd \<in> set (groups_coll db)" using m by (rule first_match_mem)
  have dist: "distinct (map group_id (groups_coll db))" using h by simp
  have upd: "updateDoc_group (group_id gd) (\<lambda>d. d\<lparr>members := arrayUnion uid (members d)\<rparr>)
               (groups_coll db)
             = map (\<lambda>d. if d = gd then gd\<lparr>members := members gd @ [uid]\<rparr> else d) (groups_coll db)"
    using updateDoc_group_distinct [OF dist mem] u by (simp add: arrayUnion_def)
  show "handleJoinGroup toUpperCase (Some uid) code (p, db) =
               (p\<lparr>showJoinModal := False, inviteCode := [], joining := False\<rparr>,
                db\<lparr>groups_coll :=
                     map (\<lambda>d. if d = gd then gd\<lparr>members := members gd @ [uid]\<rparr> else d)
                       (groups_coll db)\<rparr>)"
    using h m u upd by (simp add: handleJoinGroup_def online_def)
qed

text \<open>Claim C7, an instance: \<open>u2\<close> joins \<open>g1\<close> by its code, typed in lower case after
  a blank; a code of blanks only is ignored.\<close>

theorem join_by_invite_code_witness:
  "trim ''  '' = []
   \<and> handleJoinGroup asciiUpperCase (Some ''u2'') ''  '' (initial_page, invite_store)
        = (initial_page, invite_store)
   \<and> trim '' abcd1234'' \<noteq> []
   \<and> online invite_store
   \<and> distinct (map group_id (groups_coll invite_store))
   \<and> map members (groups_coll (snd (handleJoinGroup asciiUpperCase (Some ''u2'') '' abcd1234''
        (initial_page, invite_store)))) = [[''u1'', ''u2''], [''u1'']]
   \<and> alerts (fst (handleJoinGroup asciiUpperCase (Some ''u2'') '' abcd1234''
        (initial_page, invite_store))) = []"
proof -
  let ?gd = "(sample_group ''g1'')\<lparr>group_inviteCode := Some ''ABCD1234''\<rparr>"
  let ?new = "map (\<lambda>d. if d = ?gd then ?gd\<lparr>members := members ?gd @ [''u2'']\<rparr> else d)
                (groups_coll invite_store)"
  have h0: "trim ''  '' = []" by code_simp
  have h1: "trim '' abcd1234'' \<noteq> []" by code_simp
  have h2: "online invite_store" by code_simp
  have h3: "distinct (map group_id (groups_coll invite_store))" by code_simp
  have m: "where_inviteCode (asciiUpperCase (trim '' abcd1234'')) (groups_coll invite_store)
             = ?gd # []"
    by code_simp
  have u: "''u2'' \<notin> set (members ?gd)" by code_simp
  note t = join_by_invite_code [where toUpperCase = asciiUpperCase and db = invite_store
      and p = initial_page and uid = "''u2''"]
  have r0: "handleJoinGroup asciiUpperCase (Some ''u2'') ''  '' (initial_page, invite_store)
             = (initial_page, invite_store)"
    using t [where code = "''  ''" and currentUser = "Some ''u2''"] h0 by blast
  have r: "handleJoinGroup asciiUpperCase (Some ''u2'') '' abcd1234'' (initial_page, invite_store) =
             (initial_page\<lparr>showJoinModal := False, inviteCode := [], joining := False\<rparr>,
              invite_store\<lparr>groups_coll := ?new\<rparr>)"
    using t [where code = "'' abcd1234''" and currentUser = None] h1 h2 h3 m u by blast
  have v1: "map members ?new = [[''u1'', ''u2''], [''u1'']]" by code_simp
  have v2: "alerts initial_page = []" by code_simp
  show ?thesis using h0 r0 h1 h2 h3 v1 v2 by (simp add: r)
qed

text \<open>
  Claim C7 as stated fails, at ASCII codes, where \<open>toUpperCase\<close> is \<open>asciiUpperCase\<close>. No
  stored code exactly matches the code typed in lower case after a blank, and the user
  joins; the code stored in lower case is matched exactly by the code given, and the join
  fails with \<open>Invalid invite code\<close>; no stored code matches the code of blanks, and no
  error is shown.
\<close>

theorem join_exact_match_counterexample:
  "Some '' abcd1234'' \<notin> set (map group_inviteCode (groups_coll invite_store))
   \<and> alerts (fst (handleJoinGroup asciiUpperCase (Some ''u2'') '' abcd1234''
        (initial_page, invite_store))) = []
   \<and> map members (groups_coll (snd (handleJoinGroup asciiUpperCase (Some ''u2'') '' abcd1234''
        (initial_page, invite_store)))) = [[''u1'', ''u2''], [''u1'']]
   \<and> map group_inviteCode (groups_coll lowercase_store) = [Some ''abcd1234'']
   \<and> alerts (fst (handleJoinGroup asciiUpperCase (Some ''u2'') ''abcd1234''
        (initial_page, lowercase_store))) = [''Invalid invite code'']
   \<and> Some ''  '' \<notin> set (map group_inviteCode (groups_coll invite_store))
   \<and> alerts (fst (handleJoinGroup asciiUpperCase (Some ''u2'') ''  ''
        (initial_page, invite_store))) = []"
  by code_simp

subsection \<open>Creating a group\<close>

text \<open>
  Claim C10. With a name that is blank after trimming, \<open>handleCreateGroup\<close> changes
  nothing. With any other name, a signed-in user and a store that is reached, it stores
  a group document whose member array holds the creator's id and nothing else, and the
  new group becomes the selected group.
\<close>

theorem create_group:
  "(trim (newGroupName p) = [] \<longrightarrow>
      handleCreateGroup currentUser newId serverTime clientTime (p, db) = (p, db))
   \<and> (trim (newGroupName p) \<noteq> [] \<and> online db \<longrightarrow>
        (let r = handleCreateGroup (Some uid) newId serverTime clientTime (p, db);
             doc = last (groups_coll (snd r))
         in groups_coll (snd r) = groups_coll db @ [doc]
            \<and> group_id doc = newId
            \<and> name doc = trim (newGroupName p)
            \<and> createdBy doc = uid
            \<and> members doc = [uid]
            \<and> selectedGroup (fst r) = Some (doc\<lparr>group_createdAt := clientTime\<rparr>)
            \<and> groups (fst r) = doc\<lparr>group_createdAt := clientTime\<rparr> # groups p))"
  by (auto simp: handleCreateGroup_def Let_def split: option.splits)

text \<open>Claim C10, an instance: the user \<open>u1\<close> creates the group \<open>team\<close>; with the empty
  form of the initial page nothing happens.\<close>

theorem create_group_witness:
  "trim (newGroupName initial_page) = []
   \<and> handleCreateGroup (Some ''u1'') ''g9'' 100 101 (initial_page, sample_store 2)
        = (initial_page, sample_store 2)
   \<and> trim (newGroupName naming_page) \<noteq> []
   \<and> online (sample_store 2)
   \<and> members (last (groups_coll (snd
        (handleCreateGroup (Some ''u1'') ''g9'' 100 101 (naming_page, sample_store 2))))) = [''u1'']
   \<and> map_option group_id (selectedGroup (fst
        (handleCreateGroup (Some ''u1'') ''g9'' 100 101 (naming_page, sample_store 2)))) = Some ''g9''
   \<and> map_option members (selectedGroup (fst
        (handleCreateGroup (Some ''u1'') ''g9'' 100 101 (naming_page, sample_store 2)))) = Some [''u1'']"
proof -
  have h0: "trim (newGroupName initial_page) = []" by code_simp
  have h1: "trim (newGroupName naming_page) \<noteq> []" by code_simp
  have h2: "online (sample_store 2)" by code_simp
  have w0: "handleCreateGroup (Some ''u1'') ''g9'' 100 101 (initial_page, sample_store 2)
        = (initial_page, sample_store 2)"
    using create_group [of initial_page "Some ''u1''" "''g9''" 100 101 "sample_store 2"] h0
    by blast
  have w1: "let r = handleCreateGroup (Some ''u1'') ''g9'' 100 101 (naming_page, sample_store 2);
                doc = last (groups_coll (snd r))
            in groups_coll (snd r) = groups_coll (sample_store 2) @ [doc]
               \<and> group_id doc = ''g9''
               \<and> name doc = trim (newGroupName naming_page)
               \<and> createdBy doc = ''u1''
               \<and> members doc = [''u1'']
               \<and> selectedGroup (fst r) = Some (doc\<lparr>group_createdAt := 101\<rparr>)
               \<and> groups (fst r) = doc\<lparr>group_createdAt := 101\<rparr> # groups naming_page"
    using create_group [of naming_page "Some ''u1''" "''g9''" 100 101 "sample_store 2" "''u1''"]
      h1 h2 by blast
  show ?thesis using h0 w0 h1 h2 w1 by (simp add: Let_def)
qed

section \<open>Properties of the sign-up\<close>

text \<open>
  Claim C8. In sign-up mode, when the two passwords differ, or the password has fewer
  than 6 characters, or the username fewer than 3, \<open>handleAuth\<close> shows the error of the
  first failed check and leaves the backend as it is: no call is made, no account, no
  profile document and no username document is created.
\<close>

theorem signup_validation_blocks:
  assumes "\<not> resetMode a" and "isSignUp a"
    and "password a \<noteq> confirmPassword a \<or> length (password a) < 6 \<or> length (username a) < 3"
  shows "snd (handleAuth toLowerCase prov now (a, b)) = b
     \<and> navigated (fst (handleAuth toLowerCase prov now (a, b))) = navigated a
     \<and> \<not> loading (fst (handleAuth toLowerCase prov now (a, b)))
     \<and> error (fst (handleAuth toLowerCase prov now (a, b))) =
          (if password a \<noteq> confirmPassword a then ''Passwords do not match''
           else if length (password a) < 6 then ''Password must be at least 6 characters long''
           else ''Username must be at least 3 characters long'')"
  using assms by (auto simp: handleAuth_def Let_def)

text \<open>Claim C8, an instance: the confirmation differs from the password.\<close>

theorem signup_validation_blocks_witness:
  "\<not> resetMode mistyped_form
   \<and> isSignUp mistyped_form
   \<and> password mistyped_form \<noteq> confirmPassword mistyped_form
   \<and> calls (snd (handleAuth asciiLowerCase sample_provider 100 (mistyped_form, empty_backend))) = []
   \<and> error (fst (handleAuth asciiLowerCase sample_provider 100 (mistyped_form, empty_backend)))
        = ''Passwords do not match''"
proof -
  let ?a = "mistyped_form"
  have h1: "\<not> resetMode ?a" by (simp add: mistyped_form_def signup_form_def)
  have h2: "isSignUp ?a" by (simp add: mistyped_form_def signup_form_def)
  have h3: "password ?a \<noteq> confirmPassword ?a" by (simp add: mistyped_form_def signup_form_def)
  then have h3': "password ?a \<noteq> confirmPassword ?a \<or> length (password ?a) < 6
      \<or> length (username ?a) < 3" by blast
  have c: "calls empty_backend = []" by (simp add: empty_backend_def)
  show ?thesis
    using signup_validation_blocks [OF h1 h2 h3', where toLowerCase = asciiLowerCase
        and prov = sample_provider and now = 100 and b = empty_backend] h1 h2 h3 c
    by simp
qed

text \<open>
  Claim C9, as the code has it, for whatever \<open>toLowerCase\<close> the runtime provides. On a
  successful sign-up the availability check, keyed on the lower-cased username, is made
  before the account is created. The username document, keyed on the lower-cased
  username as well, is written only after the account exists: \<open>createUserDocument\<close>
  writes the profile document and then the username document, and after the sign-up both
  are in the store.
\<close>

theorem signup_order_and_pair:
  assumes "\<not> resetMode a" and "isSignUp a"
    and "password a = confirmPassword a" and "6 \<le> length (password a)"
    and "3 \<le> length (username a)"
    and "store_outage b = None"
    and "usernames b (toLowerCase (username a)) = None"
    and "createUser prov (email a) (password a) = Inr uid"
  shows
    "calls (snd (handleAuth toLowerCase prov now (a, b))) =
       calls b @ [GetUsernameDoc (toLowerCase (username a)), CreateAccount (email a),
                  UpdateProfile uid (username a), SetUserDoc uid,
                  SetUsernameDoc (toLowerCase (username a)) uid, SendEmailVerification uid]
     \<and> usernames (snd (handleAuth toLowerCase prov now (a, b))) (toLowerCase (username a)) = Some uid
     \<and> users (snd (handleAuth toLowerCase prov now (a, b))) uid =
          Some \<lparr> user_email = email a, user_username = username a, user_emailVerified = False,
                 user_createdAt = now, user_updatedAt = now, user_lastLoginAt = now \<rparr>
     \<and> navigated (fst (handleAuth toLowerCase prov now (a, b))) = Some ''/verify-email''"
  using assms
  by (simp add: handleAuth_def Let_def checkUsername_def createUserDocument_def logCall_def)

text \<open>Claim C9, an instance: \<open>Ann\<close> signs up with a free username, an ASCII name, on
  which \<open>toLowerCase\<close> is \<open>asciiLowerCase\<close>.\<close>

theorem signup_order_and_pair_witness:
  "\<not> resetMode signup_form \<and> isSignUp signup_form
   \<and> password signup_form = confirmPassword signup_form
   \<and> 6 \<le> length (password signup_form) \<and> 3 \<le> length (username signup_form)
   \<and> store_outage empty_backend = None
   \<and> usernames empty_backend (asciiLowerCase (username signup_form)) = None
   \<and> createUser sample_provider (email signup_form) (password signup_form) = Inr ''uid1''
   \<and> calls (snd (handleAuth asciiLowerCase sample_provider 100 (signup_form, empty_backend))) =
        [GetUsernameDoc ''ann'', CreateAccount ''ann@example.org'',
         UpdateProfile ''uid1'' ''Ann'', SetUserDoc ''uid1'', SetUsernameDoc ''ann'' ''uid1'',
         SendEmailVerification ''uid1'']
   \<and> usernames (snd (handleAuth asciiLowerCase sample_provider 100 (signup_form, empty_backend))) ''ann''
        = Some ''uid1''
   \<and> map_option user_username
        (users (snd (handleAuth asciiLowerCase sample_provider 100 (signup_form, empty_backend))) ''uid1'')
        = Some ''Ann''"
proof -
  have h1: "\<not> resetMode signup_form" by code_simp
  have h2: "isSignUp signup_form" by code_simp
  have h3: "password signup_form = confirmPassword signup_form" by code_simp
  have h4: "6 \<le> length (password signup_form)" by code_simp
  have h5: "3 \<le> length (username signup_form)" by code_simp
  have h6: "store_outage empty_backend = None" by code_simp
  have h7: "usernames empty_backend (asciiLowerCase (username signup_form)) = None"
    by code_simp
  have h8: "createUser sample_provider (email signup_form) (password signup_form) = Inr ''uid1''"
    by code_simp
  have v1: "asciiLowerCase ''Ann'' = ''ann''" by code_simp
  have v2: "email signup_form = ''ann@example.org''" by code_simp
  have v3: "username signup_form = ''Ann''" by code_simp
  have v4: "calls empty_backend = []" by code_simp
  show ?thesis
    using signup_order_and_pair [where toLowerCase = asciiLowerCase and now = 100,
        OF h1 h2 h3 h4 h5 h6 h7 h8]
      h1 h2 h3 h4 h5 h6 h7 h8
    by (simp add: v1 v2 v3 v4)
qed

text \<open>Claim C9 as stated fails: in the successful sign-up of \<open>Ann\<close> the username document
  is not written before the account is created, but after it. The name is an ASCII
  name, on which \<open>toLowerCase\<close> is \<open>asciiLowerCase\<close>.\<close>

theorem reservation_after_account_counterexample:
  "navigated (fst (handleAuth asciiLowerCase sample_provider 100 (signup_form, empty_backend)))
      = Some ''/verify-email''
   \<and> \<not> precedes (SetUsernameDoc ''ann'' ''uid1'') (CreateAccount ''ann@example.org'')
        (calls (snd (handleAuth asciiLowerCase sample_provider 100 (signup_form, empty_backend))))
   \<and> precedes (CreateAccount ''ann@example.org'') (SetUsernameDoc ''ann'' ''uid1'')
        (calls (snd (handleAuth asciiLowerCase sample_provider 100 (signup_form, empty_backend))))"
  by code_simp

end
